theory Spec2Isabelle
  imports Complex_Main
begin

section \<open>Numbers of the source language\<close>

text \<open>
  The component computes with JavaScript numbers. The embedding takes the finite ones as
  \<^typ>\<open>real\<close> and every arithmetic operation as exact; \<open>NaN\<close> and the infinities are
  not values of the model. \<open>Math.floor\<close>, the comparisons and the remainder operator
  \<open>%\<close> are exact on finite doubles, so for them the model and the program agree on every
  finite input. \<open>Math.cos\<close>, \<open>Math.sin\<close> and \<open>Math.sqrt\<close> are the real functions.
  The rounding of the arithmetic is written out where a statement depends on it: in the
  advance of the clock by one frame (\<open>animate_rounded\<close>, \<open>binary64\<close>).
\<close>

definition Math_floor :: "real \<Rightarrow> real" where
  "Math_floor x = of_int \<lfloor>x\<rfloor>"

text \<open>
  The operator \<open>%\<close> of the source language is the truncating remainder (the sign of
  the result is that of the dividend): \<open>n % d = n - d * q\<close>, where \<open>q\<close> is \<open>n / d\<close>
  rounded towards zero. Every divisor in the component is a non-zero constant.
\<close>

definition js_trunc :: "real \<Rightarrow> int" where
  "js_trunc x = (if 0 \<le> x then \<lfloor>x\<rfloor> else \<lceil>x\<rceil>)"

definition js_rem :: "real \<Rightarrow> real \<Rightarrow> real" where
  "js_rem n d = n - d * of_int (js_trunc (n / d))"

section \<open>Constants of the simulation\<close>

definition ORBIT_RX :: real where
  "ORBIT_RX = 250"

definition ORBIT_RY :: real where
  "ORBIT_RY = 180"

definition DAYS_IN_YEAR :: real where
  "DAYS_IN_YEAR = 365.25"

definition speedLevels :: "real list" where
  "speedLevels = [1, 7, 30.4, 365.25]"

section \<open>Derived quantities of the orbital model\<close>

definition dayOfYear :: "real \<Rightarrow> real" where
  "dayOfYear simulationTime = js_rem simulationTime DAYS_IN_YEAR"

definition getOrbitalStatus :: "real \<Rightarrow> string" where
  "getOrbitalStatus currentDay =
     (let day = Math_floor currentDay in
      if day \<ge> 0 \<and> day < 5 \<or> day \<ge> 360 then ''Vernal Equinox''
      else if day > 5 \<and> day < 86 then ''Spring''
      else if day \<ge> 86 \<and> day < 96 then ''Summer Solstice''
      else if day > 96 \<and> day < 177 then ''Summer''
      else if day \<ge> 177 \<and> day < 187 then ''Autumnal Equinox''
      else if day > 187 \<and> day < 268 then ''Autumn''
      else if day \<ge> 268 \<and> day < 278 then ''Winter Solstice''
      else if day > 278 \<and> day < 360 then ''Winter''
      else ''In Orbit'')"

definition earthOrbitalAngle :: "real \<Rightarrow> real" where
  "earthOrbitalAngle simulationTime = (dayOfYear simulationTime / DAYS_IN_YEAR) * 2 * pi"

definition earthX :: "real \<Rightarrow> real" where
  "earthX simulationTime = ORBIT_RX * cos (earthOrbitalAngle simulationTime)"

definition earthY :: "real \<Rightarrow> real" where
  "earthY simulationTime = ORBIT_RY * sin (earthOrbitalAngle simulationTime)"


text \<open>\<open>Math.pow(q, 2)\<close> is the square of \<open>q\<close>.\<close>

definition orbitalEccentricity :: real where
  "orbitalEccentricity = sqrt (1 - (ORBIT_RY / ORBIT_RX)\<^sup>2)"

section \<open>The calendar date\<close>

text \<open>
  \<open>currentDate\<close> is computed with the built-in \<open>Date\<close> object. Its operations are
  modelled after the language standard: a time value is a whole number of milliseconds
  since 1970-01-01T00:00:00Z, \<open>None\<close> is the invalid date (\<open>NaN\<close>), a day number is
  \<open>Day t\<close>, and months are numbered from \<open>0\<close>.
\<close>

definition msPerDay :: int where
  "msPerDay = 86400000"

definition Day :: "int \<Rightarrow> int" where
  "Day t = t div msPerDay"

definition TimeWithinDay :: "int \<Rightarrow> int" where
  "TimeWithinDay t = t mod msPerDay"

definition DaysInYear :: "int \<Rightarrow> int" where
  "DaysInYear y =
     (if y mod 4 \<noteq> 0 then 365
      else if y mod 100 \<noteq> 0 then 366
      else if y mod 400 \<noteq> 0 then 365
      else 366)"

definition DayFromYear :: "int \<Rightarrow> int" where
  "DayFromYear y =
     365 * (y - 1970) + (y - 1969) div 4 - (y - 1901) div 100 + (y - 1601) div 400"

text \<open>
  The standard defines the year of a time value as the largest \<open>y\<close> whose first day is
  not after it. \<open>YearFrom\<close> finds it by counting upwards from a year that is not too
  large; \<open>YearFromDay_greatest\<close> below shows that the result is the year of the standard.
\<close>

function YearFrom :: "int \<Rightarrow> int \<Rightarrow> int" where
  "YearFrom y d = (if DayFromYear (y + 1) \<le> d then YearFrom (y + 1) d else y)"
  by pat_completeness auto
termination
proof (relation "measure (\<lambda>(y, d). nat (d - DayFromYear y))")
  show "wf (measure (\<lambda>(y, d). nat (d - DayFromYear y)))"
    by simp
next
  fix y d :: int
  assume next_le: "DayFromYear (y + 1) \<le> d"
  have a: "(y - 1969) div 4 \<le> (y + 1 - 1969) div 4"
    by (rule zdiv_mono1) simp_all
  have "(y + 1 - 1901) div 100 \<le> (y - 1901 + 100) div 100"
    by (rule zdiv_mono1) simp_all
  then have b: "(y + 1 - 1901) div 100 \<le> (y - 1901) div 100 + 1"
    by simp
  have c: "(y - 1601) div 400 \<le> (y + 1 - 1601) div 400"
    by (rule zdiv_mono1) simp_all
  have "\<And>p p' q q' r r' :: int. p \<le> p' \<Longrightarrow> q' \<le> q + 1 \<Longrightarrow> r \<le> r' \<Longrightarrow>
          365 * (y - 1970) + p - q + r < 365 * (y + 1 - 1970) + p' - q' + r'"
    by (simp add: algebra_simps)
  from this[OF a b c] have "DayFromYear y < DayFromYear (y + 1)"
    unfolding DayFromYear_def .
  with next_le show "((y + 1, d), (y, d)) \<in> measure (\<lambda>(y, d). nat (d - DayFromYear y))"
    by simp
qed

declare YearFrom.simps [simp del]

definition YearFromDay :: "int \<Rightarrow> int" where
  "YearFromDay d = YearFrom (1970 + (if 0 \<le> d then d div 366 else d div 365)) d"

definition YearFromTime :: "int \<Rightarrow> int" where
  "YearFromTime t = YearFromDay (Day t)"

definition DayWithinYear :: "int \<Rightarrow> int" where
  "DayWithinYear t = Day t - DayFromYear (YearFromTime t)"

definition InLeapYear :: "int \<Rightarrow> int" where
  "InLeapYear t = (if DaysInYear (YearFromTime t) = 366 then 1 else 0)"

definition MonthFromTime :: "int \<Rightarrow> int" where
  "MonthFromTime t =
     (let d = DayWithinYear t; leap = InLeapYear t in
      if d < 31 then 0
      else if d < 59 + leap then 1
      else if d < 90 + leap then 2
      else if d < 120 + leap then 3
      else if d < 151 + leap then 4
      else if d < 181 + leap then 5
      else if d < 212 + leap then 6
      else if d < 243 + leap then 7
      else if d < 273 + leap then 8
      else if d < 304 + leap then 9
      else if d < 334 + leap then 10
      else 11)"

definition DateFromTime :: "int \<Rightarrow> int" where
  "DateFromTime t =
     (let d = DayWithinYear t; leap = InLeapYear t; m = MonthFromTime t in
      if m = 0 then d + 1
      else if m = 1 then d - 30
      else if m = 2 then d - 58 - leap
      else if m = 3 then d - 89 - leap
      else if m = 4 then d - 119 - leap
      else if m = 5 then d - 150 - leap
      else if m = 6 then d - 180 - leap
      else if m = 7 then d - 211 - leap
      else if m = 8 then d - 242 - leap
      else if m = 9 then d - 272 - leap
      else if m = 10 then d - 303 - leap
      else d - 333 - leap)"

text \<open>The day within year \<open>ym\<close> on which month \<open>mn\<close> starts.\<close>

definition MonthStart :: "int \<Rightarrow> int \<Rightarrow> int" where
  "MonthStart ym mn =
     (let leap = (if DaysInYear ym = 366 then 1 else 0) in
      if mn = 0 then 0
      else if mn = 1 then 31
      else if mn = 2 then 59 + leap
      else if mn = 3 then 90 + leap
      else if mn = 4 then 120 + leap
      else if mn = 5 then 151 + leap
      else if mn = 6 then 181 + leap
      else if mn = 7 then 212 + leap
      else if mn = 8 then 243 + leap
      else if mn = 9 then 273 + leap
      else if mn = 10 then 304 + leap
      else 334 + leap)"

text \<open>
  \<open>MakeDay\<close>: the day number of the first of the month, plus \<open>date - 1\<close>; a \<open>date\<close>
  beyond the end of the month runs on into the following months.
\<close>

definition MakeDay :: "int \<Rightarrow> int \<Rightarrow> int \<Rightarrow> int" where
  "MakeDay year month date =
     (let ym = year + month div 12; mn = month mod 12
      in DayFromYear ym + MonthStart ym mn + date - 1)"

definition MakeDate :: "int \<Rightarrow> int \<Rightarrow> int" where
  "MakeDate day time = day * msPerDay + time"

text \<open>A \<open>Date\<close> holds at most \<open>8.64e15\<close> milliseconds on either side of the epoch.\<close>

definition TimeClip :: "int \<Rightarrow> int option" where
  "TimeClip time = (if \<bar>time\<bar> > 8640000000000000 then None else Some time)"

text \<open>
  \<open>getDate\<close>, \<open>setDate\<close> and \<open>toLocaleDateString\<close> work in the local time of the host.
  \<open>tza\<close> is the offset of the host's time zone from UTC in milliseconds (positive east
  of Greenwich), taken as constant.
\<close>

definition LocalTime :: "int \<Rightarrow> int \<Rightarrow> int" where
  "LocalTime tza t = t + tza"

definition UTC :: "int \<Rightarrow> int \<Rightarrow> int" where
  "UTC tza t = t - tza"

text \<open>\<open>new Date('2024-03-20T00:00:00Z')\<close>: 20 March 2024, midnight UTC.\<close>

definition START_DATE :: int where
  "START_DATE = MakeDate (MakeDay 2024 2 20) 0"

definition getDate :: "int \<Rightarrow> int \<Rightarrow> int" where
  "getDate tza t = DateFromTime (LocalTime tza t)"

text \<open>\<open>setDate(dt)\<close> on a valid date; the argument is a number, truncated to an integer.\<close>

definition setDate :: "int \<Rightarrow> real \<Rightarrow> int \<Rightarrow> int option" where
  "setDate tza dt t =
     (let lt = LocalTime tza t;
          newDate = MakeDate (MakeDay (YearFromTime lt) (MonthFromTime lt) (js_trunc dt))
                      (TimeWithinDay lt)
      in TimeClip (UTC tza newDate))"

text \<open>
  \<open>toLocaleDateString('en-US', {year: 'numeric', month: 'long', day: 'numeric'})\<close> prints
  the local year, month and day of the date; the model returns these three numbers
  (the month counted from \<open>1\<close>), and \<open>None\<close> for the text \<open>Invalid Date\<close>.
\<close>

definition toLocaleDateString :: "int \<Rightarrow> int option \<Rightarrow> (int \<times> int \<times> int) option" where
  "toLocaleDateString tza tv =
     (case tv of
        None \<Rightarrow> None
      | Some t \<Rightarrow>
          (let lt = LocalTime tza t
           in Some (YearFromTime lt, MonthFromTime lt + 1, DateFromTime lt)))"

definition currentDate :: "int \<Rightarrow> real \<Rightarrow> (int \<times> int \<times> int) option" where
  "currentDate tza simulationTime =
     (let date = START_DATE
      in toLocaleDateString tza
           (setDate tza (of_int (getDate tza date) + Math_floor simulationTime) date))"

section \<open>The labels of the orbital status\<close>

text \<open>The nine strings that occur in a \<open>return\<close> of \<open>getOrbitalStatus\<close>, in its order.\<close>

definition labels :: "string list" where
  "labels = [''Vernal Equinox'', ''Spring'', ''Summer Solstice'', ''Summer'',
     ''Autumnal Equinox'', ''Autumn'', ''Winter Solstice'', ''Winter'', ''In Orbit'']"

section \<open>The simulation clock\<close>

text \<open>
  The state of the component: the four \<open>useState\<close> cells and the two \<open>useRef\<close>
  cells. \<open>None\<close> stands for \<open>undefined\<close> in a ref.
\<close>

record visualizer =
  speedLevel :: nat
  isRotationEnabled :: bool
  isPaused :: bool
  simulationTime :: real
  animationFrameId :: "nat option"
  lastTimeRef :: "real option"

definition initial :: visualizer where
  "initial = \<lparr>speedLevel = 1, isRotationEnabled = True, isPaused = False,
     simulationTime = 0, animationFrameId = None, lastTimeRef = None\<rparr>"

text \<open>
  \<open>speedLevels[speedLevel]\<close>: an index outside the array reads \<open>undefined\<close>
  (\<open>None\<close>). The slider delivers the indices \<open>0\<close> to \<open>speedLevels.length - 1\<close>.
\<close>

definition speed :: "visualizer \<Rightarrow> real option" where
  "speed s = (if speedLevel s < length speedLevels
              then Some (speedLevels ! speedLevel s) else None)"

text \<open>
  One call of the frame callback \<open>animate(time)\<close>; \<open>handle\<close> is what
  \<open>requestAnimationFrame\<close> returns for the next frame. With an \<open>undefined\<close> speed the
  unpaused update would store \<open>NaN\<close>, which is no value of the model: the result is
  \<open>None\<close> there.
\<close>

definition animate :: "nat \<Rightarrow> real \<Rightarrow> visualizer \<Rightarrow> visualizer option" where
  "animate handle time s =
     (let last = (case lastTimeRef s of None \<Rightarrow> time | Some l \<Rightarrow> l);
          deltaTime = (time - last) / 1000;
          s' = s\<lparr>animationFrameId := Some handle, lastTimeRef := Some time\<rparr>
      in if \<not> isPaused s
         then (case speed s of
                 None \<Rightarrow> None
               | Some v \<Rightarrow> Some (s'\<lparr>simulationTime := simulationTime s + deltaTime * v\<rparr>))
         else Some s')"


section \<open>The clock in double precision\<close>

text \<open>
  Where a statement depends on the rounding of the arithmetic, the frame callback is
  taken with every arithmetic result passed through a rounding function \<open>rnd\<close>: the
  subtraction, the division by \<open>1000\<close>, the product with the speed (a literal, itself
  rounded when read) and the sum. With \<open>rnd\<close> the identity this is \<open>animate\<close>; with
  \<open>binary64\<close> it is the callback as the language computes it.

  \<open>binary64 x\<close> is the double nearest to \<open>x\<close>, ties to the even significand: a
  significand of 53 bits, the smallest exponent that of the subnormal numbers. Results
  beyond the largest double, which the language replaces by an infinity, are outside the
  model.
\<close>

definition pow2 :: "int \<Rightarrow> real" where
  "pow2 e = (if 0 \<le> e then 2 ^ nat e else 1 / 2 ^ nat (- e))"

definition ties_even :: "real \<Rightarrow> int" where
  "ties_even y =
     (let f = \<lfloor>y\<rfloor>; r = y - of_int f in
      if r < 1 / 2 then f
      else if 1 / 2 < r then f + 1
      else if even f then f else f + 1)"

definition binary64 :: "real \<Rightarrow> real" where
  "binary64 x =
     (if x = 0 then 0
      else let e = max (\<lfloor>log 2 \<bar>x\<bar>\<rfloor> - 52) (- 1074)
           in of_int (ties_even (x / pow2 e)) * pow2 e)"

definition animate_rounded ::
    "(real \<Rightarrow> real) \<Rightarrow> nat \<Rightarrow> real \<Rightarrow> visualizer \<Rightarrow> visualizer option" where
  "animate_rounded rnd handle time s =
     (let last = (case lastTimeRef s of None \<Rightarrow> time | Some l \<Rightarrow> l);
          deltaTime = rnd (rnd (time - last) / 1000);
          s' = s\<lparr>animationFrameId := Some handle, lastTimeRef := Some time\<rparr>
      in if \<not> isPaused s
         then (case speed s of
                 None \<Rightarrow> None
               | Some v \<Rightarrow>
                   Some (s'\<lparr>simulationTime := rnd (simulationTime s + rnd (deltaTime * rnd v))\<rparr>))
         else Some s')"

fun run_rounded ::
    "(real \<Rightarrow> real) \<Rightarrow> visualizer \<Rightarrow> (nat \<times> real) list \<Rightarrow> visualizer option" where
  "run_rounded rnd s [] = Some s"
| "run_rounded rnd s ((handle, time) # frames) =
     (case animate_rounded rnd handle time s of
        None \<Rightarrow> None
      | Some s' \<Rightarrow> run_rounded rnd s' frames)"

section \<open>The orbital status\<close>

text \<open>The comparisons of \<open>getOrbitalStatus\<close> are comparisons of the integer \<open>\<lfloor>currentDay\<rfloor>\<close>.\<close>

lemma getOrbitalStatus_floor:
  "getOrbitalStatus x =
     (let d = \<lfloor>x\<rfloor> in
      if d \<ge> 0 \<and> d < 5 \<or> d \<ge> 360 then ''Vernal Equinox''
      else if d > 5 \<and> d < 86 then ''Spring''
      else if d \<ge> 86 \<and> d < 96 then ''Summer Solstice''
      else if d > 96 \<and> d < 177 then ''Summer''
      else if d \<ge> 177 \<and> d < 187 then ''Autumnal Equinox''
      else if d > 187 \<and> d < 268 then ''Autumn''
      else if d \<ge> 268 \<and> d < 278 then ''Winter Solstice''
      else if d > 278 \<and> d < 360 then ''Winter''
      else ''In Orbit'')"
  unfolding getOrbitalStatus_def Math_floor_def Let_def
  by (simp only: of_int_0_le_iff of_int_less_numeral_iff of_int_numeral_le_iff
        of_int_numeral_less_iff of_int_le_numeral_iff)

lemma getOrbitalStatus_labels: "getOrbitalStatus x \<in> set labels"
  by (simp add: getOrbitalStatus_floor labels_def Let_def)

text \<open>
  Claim C3. For every day of the year \<open>x\<close> in \<open>[0, 365.25)\<close>, with \<open>d = \<lfloor>x\<rfloor>\<close>, the
  status is \<open>Vernal Equinox\<close> for \<open>0 \<le> d < 5\<close> or \<open>d \<ge> 360\<close>, \<open>Spring\<close> for
  \<open>5 < d < 86\<close>, \<open>Summer Solstice\<close> for \<open>86 \<le> d < 96\<close>, \<open>Summer\<close> for \<open>96 < d < 177\<close>,
  \<open>Autumnal Equinox\<close> for \<open>177 \<le> d < 187\<close>, \<open>Autumn\<close> for \<open>187 < d < 268\<close>,
  \<open>Winter Solstice\<close> for \<open>268 \<le> d < 278\<close>, \<open>Winter\<close> for \<open>278 < d < 360\<close>, and the
  fallback \<open>In Orbit\<close> exactly for \<open>d\<close> in \<open>{5, 96, 187, 278}\<close>; the result is always one
  of the nine labels.
\<close>

theorem getOrbitalStatus_table:
  assumes "0 \<le> x" and "x < 365.25"
  shows "((0 \<le> \<lfloor>x\<rfloor> \<and> \<lfloor>x\<rfloor> < 5 \<or> 360 \<le> \<lfloor>x\<rfloor>) \<longrightarrow> getOrbitalStatus x = ''Vernal Equinox'')
       \<and> (5 < \<lfloor>x\<rfloor> \<and> \<lfloor>x\<rfloor> < 86 \<longrightarrow> getOrbitalStatus x = ''Spring'')
       \<and> (86 \<le> \<lfloor>x\<rfloor> \<and> \<lfloor>x\<rfloor> < 96 \<longrightarrow> getOrbitalStatus x = ''Summer Solstice'')
       \<and> (96 < \<lfloor>x\<rfloor> \<and> \<lfloor>x\<rfloor> < 177 \<longrightarrow> getOrbitalStatus x = ''Summer'')
       \<and> (177 \<le> \<lfloor>x\<rfloor> \<and> \<lfloor>x\<rfloor> < 187 \<longrightarrow> getOrbitalStatus x = ''Autumnal Equinox'')
       \<and> (187 < \<lfloor>x\<rfloor> \<and> \<lfloor>x\<rfloor> < 268 \<longrightarrow> getOrbitalStatus x = ''Autumn'')
       \<and> (268 \<le> \<lfloor>x\<rfloor> \<and> \<lfloor>x\<rfloor> < 278 \<longrightarrow> getOrbitalStatus x = ''Winter Solstice'')
       \<and> (278 < \<lfloor>x\<rfloor> \<and> \<lfloor>x\<rfloor> < 360 \<longrightarrow> getOrbitalStatus x = ''Winter'')
       \<and> (getOrbitalStatus x = ''In Orbit'' \<longleftrightarrow> \<lfloor>x\<rfloor> \<in> {5, 96, 187, 278})
       \<and> getOrbitalStatus x \<in> set labels"
proof -
  have d0: "0 \<le> \<lfloor>x\<rfloor>"
    using assms(1) by simp
  have io: "getOrbitalStatus x = ''In Orbit'' \<longleftrightarrow> \<lfloor>x\<rfloor> \<in> {5, 96, 187, 278}"
    using d0 by (simp add: getOrbitalStatus_floor Let_def) linarith
  show ?thesis
    using io getOrbitalStatus_labels[of x]
    by (simp add: getOrbitalStatus_floor Let_def)
qed

theorem getOrbitalStatus_table_witness:
  "getOrbitalStatus 2 = ''Vernal Equinox'' \<and> getOrbitalStatus 364.9 = ''Vernal Equinox''
   \<and> getOrbitalStatus 50 = ''Spring'' \<and> getOrbitalStatus 91.5 = ''Summer Solstice''
   \<and> getOrbitalStatus 100 = ''Summer'' \<and> getOrbitalStatus 182 = ''Autumnal Equinox''
   \<and> getOrbitalStatus 200 = ''Autumn'' \<and> getOrbitalStatus 273 = ''Winter Solstice''
   \<and> getOrbitalStatus 300 = ''Winter'' \<and> getOrbitalStatus 5.5 = ''In Orbit''"
  using getOrbitalStatus_table[of 2] getOrbitalStatus_table[of "364.9"]
    getOrbitalStatus_table[of 50] getOrbitalStatus_table[of "91.5"]
    getOrbitalStatus_table[of 100] getOrbitalStatus_table[of 182]
    getOrbitalStatus_table[of 200] getOrbitalStatus_table[of 273]
    getOrbitalStatus_table[of 300] getOrbitalStatus_table[of "5.5"]
  by simp

text \<open>
  Claim C10. The orbital status is defined for every finite number, also for negative
  ones and for those from \<open>365.25\<close> on: the result is always one of the nine labels, and
  it is \<open>In Orbit\<close> whenever \<open>\<lfloor>currentDay\<rfloor> < 0\<close>.
\<close>

theorem getOrbitalStatus_total:
  "getOrbitalStatus currentDay \<in> set labels
   \<and> (\<lfloor>currentDay\<rfloor> < 0 \<longrightarrow> getOrbitalStatus currentDay = ''In Orbit'')"
  using getOrbitalStatus_labels[of currentDay]
  by (simp add: getOrbitalStatus_floor Let_def)

theorem getOrbitalStatus_total_witness:
  "\<lfloor>- 3.5 :: real\<rfloor> < 0 \<and> getOrbitalStatus (- 3.5) = ''In Orbit''
   \<and> getOrbitalStatus 1000 \<in> set labels"
proof -
  have neg: "\<lfloor>- 3.5 :: real\<rfloor> < 0"
    by (simp add: floor_less_iff)
  show ?thesis
    using neg getOrbitalStatus_total[of "- 3.5"] getOrbitalStatus_total[of 1000] by blast
qed

section \<open>Day of the year, position, rotation and eccentricity\<close>

lemma js_rem_nonneg:
  assumes "0 \<le> n" and "0 < d"
  shows "js_rem n d = n - d * of_int \<lfloor>n / d\<rfloor>" and "0 \<le> js_rem n d" and "js_rem n d < d"
proof -
  have q: "0 \<le> n / d"
    using assms by simp
  then show eq: "js_rem n d = n - d * of_int \<lfloor>n / d\<rfloor>"
    by (simp add: js_rem_def js_trunc_def)
  have "of_int \<lfloor>n / d\<rfloor> \<le> n / d"
    by simp
  then have "of_int \<lfloor>n / d\<rfloor> * d \<le> n"
    using assms(2) by (simp only: pos_le_divide_eq)
  then have "d * of_int \<lfloor>n / d\<rfloor> \<le> n"
    by (simp add: mult.commute)
  then show "0 \<le> js_rem n d"
    using eq by simp
  have "n / d < of_int \<lfloor>n / d\<rfloor> + 1"
    by linarith
  then have "n < (of_int \<lfloor>n / d\<rfloor> + 1) * d"
    using assms(2) by (simp only: pos_divide_less_eq)
  then have "n < d * (of_int \<lfloor>n / d\<rfloor> + 1)"
    by (simp add: mult.commute)
  then show "js_rem n d < d"
    using eq by (simp add: algebra_simps)
qed

text \<open>
  Claim C5. For every \<open>elapsedDays \<ge> 0\<close> the day of the year is the remainder of
  \<open>elapsedDays\<close> by \<open>365.25\<close>, and it lies in \<open>[0, 365.25)\<close>.
\<close>

theorem dayOfYear_range:
  assumes "0 \<le> elapsedDays"
  shows "dayOfYear elapsedDays = js_rem elapsedDays 365.25
       \<and> dayOfYear elapsedDays = elapsedDays - 365.25 * of_int \<lfloor>elapsedDays / 365.25\<rfloor>
       \<and> 0 \<le> dayOfYear elapsedDays \<and> dayOfYear elapsedDays < 365.25"
proof -
  have d: "(0::real) < 365.25"
    by simp
  show ?thesis
    unfolding dayOfYear_def DAYS_IN_YEAR_def
    using js_rem_nonneg[OF assms d] by simp
qed

theorem dayOfYear_range_witness:
  "dayOfYear 400 = 34.75 \<and> (0::real) \<le> 34.75 \<and> (34.75::real) < 365.25"
proof -
  have f: "\<lfloor>400 / 365.25 :: real\<rfloor> = 1"
    by (simp add: floor_eq_iff)
  have h: "(0::real) \<le> 400"
    by simp
  show ?thesis
    using dayOfYear_range[OF h] f by simp
qed

lemma position_on_ellipse:
  "(earthX e / ORBIT_RX)\<^sup>2 + (earthY e / ORBIT_RY)\<^sup>2 = 1"
  by (simp add: earthX_def earthY_def ORBIT_RX_def ORBIT_RY_def)

lemma square_diff_bound:
  fixes x c r h :: real
  assumes "\<bar>x - c\<bar> \<le> h" and "\<bar>c\<bar> \<le> r"
  shows "\<bar>x\<^sup>2 - c\<^sup>2\<bar> \<le> h * (h + 2 * r)"
proof -
  have h0: "0 \<le> h"
    using assms(1) by linarith
  have "\<bar>x + c\<bar> \<le> \<bar>x - c\<bar> + 2 * \<bar>c\<bar>"
    by linarith
  then have s: "\<bar>x + c\<bar> \<le> h + 2 * r"
    using assms by linarith
  have "x\<^sup>2 - c\<^sup>2 = (x - c) * (x + c)"
    by (simp add: power2_eq_square algebra_simps)
  then have "\<bar>x\<^sup>2 - c\<^sup>2\<bar> = \<bar>x - c\<bar> * \<bar>x + c\<bar>"
    by (simp add: abs_mult)
  also have "\<dots> \<le> h * (h + 2 * r)"
    using assms(1) s h0 by (intro mult_mono) auto
  finally show ?thesis .
qed

text \<open>
  A point within \<open>1e-8\<close> of the computed position in each coordinate still satisfies the
  equation of the ellipse within \<open>1e-9\<close>.
\<close>

lemma near_ellipse:
  assumes "\<bar>x - earthX e\<bar> \<le> 1 / 10 ^ 8" and "\<bar>y - earthY e\<bar> \<le> 1 / 10 ^ 8"
  shows "\<bar>(x / ORBIT_RX)\<^sup>2 + (y / ORBIT_RY)\<^sup>2 - 1\<bar> \<le> 1 / 10 ^ 9"
proof -
  have bx: "\<bar>earthX e\<bar> \<le> 250"
    by (simp add: earthX_def ORBIT_RX_def abs_mult)
  have by': "\<bar>earthY e\<bar> \<le> 180"
    by (simp add: earthY_def ORBIT_RY_def abs_mult)
  have dx: "\<bar>x\<^sup>2 - (earthX e)\<^sup>2\<bar> \<le> 1 / 10 ^ 8 * (1 / 10 ^ 8 + 2 * 250)"
    using square_diff_bound[OF assms(1) bx] .
  have dy: "\<bar>y\<^sup>2 - (earthY e)\<^sup>2\<bar> \<le> 1 / 10 ^ 8 * (1 / 10 ^ 8 + 2 * 180)"
    using square_diff_bound[OF assms(2) by'] .
  have one: "(earthX e)\<^sup>2 / 62500 + (earthY e)\<^sup>2 / 32400 = 1"
    using position_on_ellipse[of e]
    by (simp add: ORBIT_RX_def ORBIT_RY_def power_divide)
  have "(x / ORBIT_RX)\<^sup>2 + (y / ORBIT_RY)\<^sup>2 - 1
      = (x\<^sup>2 - (earthX e)\<^sup>2) / 62500 + (y\<^sup>2 - (earthY e)\<^sup>2) / 32400"
    using one by (simp add: ORBIT_RX_def ORBIT_RY_def power_divide diff_divide_distrib)
  also have "\<bar>\<dots>\<bar> \<le> \<bar>x\<^sup>2 - (earthX e)\<^sup>2\<bar> / 62500 + \<bar>y\<^sup>2 - (earthY e)\<^sup>2\<bar> / 32400"
    by (simp add: abs_triangle_ineq[THEN order_trans])
  also have "\<dots> \<le> 1 / 10 ^ 9"
    using dx dy by simp
  finally show ?thesis .
qed

text \<open>
  Claim C6. For every \<open>elapsedDays\<close> the position
  \<open>(ORBIT_RX * cos angle, ORBIT_RY * sin angle)\<close> satisfies
  \<open>(x / ORBIT_RX)\<^sup>2 + (y / ORBIT_RY)\<^sup>2 = 1\<close> within \<open>1e-9\<close>, with \<open>ORBIT_RX = 250\<close> and
  \<open>ORBIT_RY = 180\<close>; the same holds of every point within \<open>1e-8\<close> of it in each
  coordinate, which leaves room for the rounding of the computed coordinates.
\<close>

theorem position_within_tolerance:
  "earthX e = ORBIT_RX * cos (earthOrbitalAngle e)
   \<and> earthY e = ORBIT_RY * sin (earthOrbitalAngle e)
   \<and> ORBIT_RX = 250 \<and> ORBIT_RY = 180
   \<and> \<bar>(earthX e / ORBIT_RX)\<^sup>2 + (earthY e / ORBIT_RY)\<^sup>2 - 1\<bar> \<le> 1 / 10 ^ 9
   \<and> (\<forall>x y. \<bar>x - earthX e\<bar> \<le> 1 / 10 ^ 8 \<and> \<bar>y - earthY e\<bar> \<le> 1 / 10 ^ 8 \<longrightarrow>
          \<bar>(x / ORBIT_RX)\<^sup>2 + (y / ORBIT_RY)\<^sup>2 - 1\<bar> \<le> 1 / 10 ^ 9)"
proof -
  have a: "earthX e = ORBIT_RX * cos (earthOrbitalAngle e)"
    and b: "earthY e = ORBIT_RY * sin (earthOrbitalAngle e)"
    by (simp_all add: earthX_def earthY_def)
  have c: "ORBIT_RX = 250" "ORBIT_RY = 180"
    by (simp_all add: ORBIT_RX_def ORBIT_RY_def)
  have d: "\<bar>(earthX e / ORBIT_RX)\<^sup>2 + (earthY e / ORBIT_RY)\<^sup>2 - 1\<bar> \<le> 1 / 10 ^ 9"
    by (simp add: position_on_ellipse)
  show ?thesis
    using a b c d near_ellipse[of _ e] by blast
qed

theorem position_within_tolerance_witness:
  "earthX 0 = 250 \<and> earthY 0 = 0
   \<and> \<bar>(250 / ORBIT_RX)\<^sup>2 + (0 / ORBIT_RY)\<^sup>2 - 1\<bar> \<le> 1 / 10 ^ 9"
proof -
  have x: "earthX 0 = 250" and y: "earthY 0 = 0"
    by (simp_all add: earthX_def earthY_def earthOrbitalAngle_def dayOfYear_def js_rem_def
        js_trunc_def ORBIT_RX_def ORBIT_RY_def)
  have "\<bar>250 - earthX 0\<bar> \<le> 1 / 10 ^ 8 \<and> \<bar>0 - earthY 0\<bar> \<le> 1 / 10 ^ 8"
    by (simp add: x y)
  then have "\<bar>(250 / ORBIT_RX)\<^sup>2 + (0 / ORBIT_RY)\<^sup>2 - 1\<bar> \<le> 1 / 10 ^ 9"
    using position_within_tolerance[of 0] by blast
  then show ?thesis
    using x y by blast
qed



lemma orbitalEccentricity_bounds:
  "0.69397 < orbitalEccentricity" "orbitalEccentricity < 0.69398"
proof -
  have e: "orbitalEccentricity = sqrt 0.4816"
    by (simp add: orbitalEccentricity_def ORBIT_RX_def ORBIT_RY_def power2_eq_square)
  have "(0.69397::real)\<^sup>2 < 0.4816"
    by (simp add: power2_eq_square)
  then show "0.69397 < orbitalEccentricity"
    unfolding e by (rule real_less_rsqrt)
  have "(0.4816::real) < 0.69398\<^sup>2"
    by (simp add: power2_eq_square)
  then show "orbitalEccentricity < 0.69398"
    unfolding e by (intro real_less_lsqrt) simp_all
qed

text \<open>
  Claim C2, as stated: the eccentricity \<open>sqrt (1 - (ORBIT_RY / ORBIT_RX)\<^sup>2)\<close> is
  approximately \<open>0.7199\<close>. It is not: it differs from \<open>0.7199\<close> in the second decimal.
\<close>

theorem orbitalEccentricity_counterexample:
  "\<not> \<bar>orbitalEccentricity - 0.7199\<bar> < 0.00005 \<and> 0.0259 < 0.7199 - orbitalEccentricity"
  using orbitalEccentricity_bounds(2) by (simp add: abs_less_iff)

text \<open>
  Claim C2, amended. The eccentricity \<open>sqrt (1 - (ORBIT_RY / ORBIT_RX)\<^sup>2)\<close>, with
  \<open>ORBIT_RX = 250\<close> and \<open>ORBIT_RY = 180\<close>, is approximately \<open>0.6940\<close>.
\<close>

theorem orbitalEccentricity_value:
  "orbitalEccentricity = sqrt (1 - (ORBIT_RY / ORBIT_RX)\<^sup>2)
   \<and> ORBIT_RX = 250 \<and> ORBIT_RY = 180
   \<and> \<bar>orbitalEccentricity - 0.6940\<bar> < 0.00005"
proof -
  have "\<bar>orbitalEccentricity - 0.6940\<bar> < 0.00005"
    using orbitalEccentricity_bounds by (simp add: abs_less_iff)
  then show ?thesis
    by (simp only: orbitalEccentricity_def ORBIT_RX_def ORBIT_RY_def simp_thms)
qed

section \<open>The calendar date\<close>

subsection \<open>The year of a day, as the language standard defines it\<close>

lemma div_bounds:
  fixes a k :: int
  assumes "0 < k"
  shows "k * (a div k) \<le> a" and "a < k * (a div k) + k"
proof -
  have e: "k * (a div k) + a mod k = a"
    by simp
  have "0 \<le> a mod k" "a mod k < k"
    using assms by simp_all
  then show "k * (a div k) \<le> a" and "a < k * (a div k) + k"
    using e by linarith+
qed

lemma DayFromYear_mono:
  assumes "y \<le> y'"
  shows "DayFromYear y \<le> DayFromYear y'"
proof -
  define n where "n = y' - y"
  have n: "0 \<le> n" "y' = y + n"
    using assms by (simp_all add: n_def)
  have a: "(y - 1969) div 4 \<le> (y' - 1969) div 4"
    using assms by (intro zdiv_mono1) simp_all
  have "(y' - 1901) div 100 \<le> (y - 1901 + n * 100) div 100"
    using n by (intro zdiv_mono1) simp_all
  then have b: "(y' - 1901) div 100 \<le> (y - 1901) div 100 + n"
    by simp
  have c: "(y - 1601) div 400 \<le> (y' - 1601) div 400"
    using assms by (intro zdiv_mono1) simp_all
  have "\<And>p p' q q' r r' :: int. p \<le> p' \<Longrightarrow> q' \<le> q + n \<Longrightarrow> r \<le> r' \<Longrightarrow>
          365 * (y - 1970) + p - q + r \<le> 365 * (y' - 1970) + p' - q' + r'"
    using n by (simp add: algebra_simps)
  from this[OF a b c] show ?thesis
    unfolding DayFromYear_def .
qed

lemma YearFrom_bounds:
  "DayFromYear y \<le> d \<Longrightarrow>
   DayFromYear (YearFrom y d) \<le> d \<and> d < DayFromYear (YearFrom y d + 1)"
proof (induction y d rule: YearFrom.induct)
  case (1 y d)
  show ?case
  proof (cases "DayFromYear (y + 1) \<le> d")
    case True
    with "1.IH" show ?thesis
      by (simp add: YearFrom.simps[of y d])
  next
    case False
    with "1.prems" show ?thesis
      by (simp add: YearFrom.simps[of y d])
  qed
qed

lemma leap_days_nonneg_years:
  fixes k p q r :: int
  assumes "0 \<le> k" and "4 * p \<le> k + 1" and "0 \<le> q" and "400 * r \<le> k + 369"
  shows "p - q + r \<le> k"
proof (cases "k = 0")
  case True
  have "p \<le> 0"
    using assms(2) True by linarith
  moreover have "r \<le> 0"
    using assms(4) True by linarith
  ultimately show ?thesis
    using assms(3) True by linarith
next
  case False
  then have "1 \<le> k"
    using assms(1) by linarith
  moreover have "400 * p + 400 * r \<le> 101 * k + 469"
    using assms(2,4) by linarith
  ultimately have "p + r \<le> k"
    by linarith
  then show ?thesis
    using assms(3) by linarith
qed

lemma leap_days_negative_years:
  fixes k p q r :: int
  assumes "k \<le> - 1" and "4 * p \<le> k + 1" and "k + 69 < 100 * q + 100"
    and "400 * r \<le> k + 369"
  shows "p - q + r \<le> 0"
proof -
  have p: "p \<le> 0"
    using assms(1,2) by linarith
  have r: "r \<le> 0"
    using assms(1,4) by linarith
  show ?thesis
  proof (cases "0 \<le> q")
    case True
    then show ?thesis
      using p r by linarith
  next
    case False
    then have "q \<le> - 1"
      by linarith
    then have "p \<le> q"
      using assms(2,3) by linarith
    then show ?thesis
      using r by linarith
  qed
qed

text \<open>The year from which \<open>YearFromDay\<close> starts to count is not after the day.\<close>

lemma start_year_le:
  "DayFromYear (1970 + (if 0 \<le> d then d div 366 else d div 365)) \<le> d"
proof (cases "0 \<le> d")
  case True
  define k where "k = d div 366"
  have k0: "0 \<le> k"
    unfolding k_def using True by (simp add: pos_imp_zdiv_nonneg_iff)
  have k1: "366 * k \<le> d"
    unfolding k_def by (rule div_bounds(1)) simp
  define p where "p = (k + 1) div 4"
  define q where "q = (k + 69) div 100"
  define r where "r = (k + 369) div 400"
  have p: "4 * p \<le> k + 1"
    unfolding p_def by (rule div_bounds(1)) simp
  have q: "0 \<le> q"
    unfolding q_def using k0 by (simp add: pos_imp_zdiv_nonneg_iff)
  have r: "400 * r \<le> k + 369"
    unfolding r_def by (rule div_bounds(1)) simp
  have "p - q + r \<le> k"
    using k0 p q r by (rule leap_days_nonneg_years)
  then have "365 * k + p - q + r \<le> d"
    using k1 by linarith
  moreover have "DayFromYear (1970 + k) = 365 * k + p - q + r"
    by (simp add: DayFromYear_def p_def q_def r_def add.commute)
  ultimately show ?thesis
    using True by (simp add: k_def)
next
  case False
  define k where "k = d div 365"
  have "k < 0"
    unfolding k_def using False by (simp add: div_neg_pos_less0)
  then have k0: "k \<le> - 1"
    by linarith
  have k1: "365 * k \<le> d"
    unfolding k_def by (rule div_bounds(1)) simp
  define p where "p = (k + 1) div 4"
  define q where "q = (k + 69) div 100"
  define r where "r = (k + 369) div 400"
  have p: "4 * p \<le> k + 1"
    unfolding p_def by (rule div_bounds(1)) simp
  have q: "k + 69 < 100 * q + 100"
    unfolding q_def by (rule div_bounds(2)) simp
  have r: "400 * r \<le> k + 369"
    unfolding r_def by (rule div_bounds(1)) simp
  have "p - q + r \<le> 0"
    using k0 p q r by (rule leap_days_negative_years)
  then have "365 * k + p - q + r \<le> d"
    using k1 by linarith
  moreover have "DayFromYear (1970 + k) = 365 * k + p - q + r"
    by (simp add: DayFromYear_def p_def q_def r_def add.commute)
  ultimately show ?thesis
    using False by (simp add: k_def)
qed

text \<open>\<open>YearFromDay d\<close> is the largest year whose first day is not after day \<open>d\<close>.\<close>

lemma YearFromDay_greatest:
  "DayFromYear (YearFromDay d) \<le> d \<and> (\<forall>y. DayFromYear y \<le> d \<longrightarrow> y \<le> YearFromDay d)"
proof -
  have b: "DayFromYear (YearFromDay d) \<le> d \<and> d < DayFromYear (YearFromDay d + 1)"
    unfolding YearFromDay_def by (rule YearFrom_bounds) (rule start_year_le)
  have "y \<le> YearFromDay d" if "DayFromYear y \<le> d" for y
  proof (rule ccontr)
    assume "\<not> y \<le> YearFromDay d"
    then have "YearFromDay d + 1 \<le> y"
      by simp
    then have "DayFromYear (YearFromDay d + 1) \<le> DayFromYear y"
      by (rule DayFromYear_mono)
    with b that show False
      by linarith
  qed
  with b show ?thesis
    by blast
qed

subsection \<open>The date shown by the component\<close>

lemma START_DATE_value: "START_DATE = 1710892800000"
  by (simp add: START_DATE_def MakeDate_def MakeDay_def MonthStart_def DaysInYear_def
      DayFromYear_def msPerDay_def)

lemma START_DATE_days: "START_DATE = 19802 * msPerDay"
  by (simp add: START_DATE_value msPerDay_def)

lemma Day_split:
  assumes "0 \<le> r" and "r < msPerDay"
  shows "Day (k * msPerDay + r) = k" and "TimeWithinDay (k * msPerDay + r) = r"
proof -
  have m: "0 < msPerDay"
    by (simp add: msPerDay_def)
  show "Day (k * msPerDay + r) = k"
    unfolding Day_def using assms m by (simp add: div_pos_pos_trivial)
  show "TimeWithinDay (k * msPerDay + r) = r"
    unfolding TimeWithinDay_def using assms by (simp add: mod_pos_pos_trivial)
qed

text \<open>Year, month and day of a time value depend on its day number only.\<close>

lemma civil_cong:
  assumes "Day a = Day b"
  shows "YearFromTime a = YearFromTime b" and "MonthFromTime a = MonthFromTime b"
    and "DateFromTime a = DateFromTime b"
proof -
  show y: "YearFromTime a = YearFromTime b"
    by (simp add: YearFromTime_def assms)
  have d: "DayWithinYear a = DayWithinYear b"
    by (simp add: DayWithinYear_def y assms)
  have l: "InLeapYear a = InLeapYear b"
    by (simp add: InLeapYear_def y)
  show m: "MonthFromTime a = MonthFromTime b"
    by (simp add: MonthFromTime_def d l)
  show "DateFromTime a = DateFromTime b"
    by (simp add: DateFromTime_def d l m)
qed

text \<open>Day 19802 is 20 March 2024, day 19801 is 19 March 2024, day 19984 is 18 September 2024.\<close>

lemma civil_19802:
  assumes "Day t = 19802"
  shows "YearFromTime t = 2024" and "MonthFromTime t = 2" and "DateFromTime t = 20"
proof -
  have "YearFromDay 19802 = 2024"
    by (simp add: YearFromDay_def YearFrom.simps DayFromYear_def)
  then show y: "YearFromTime t = 2024"
    by (simp add: YearFromTime_def assms)
  have dwy: "DayWithinYear t = 79"
    by (simp add: DayWithinYear_def y assms DayFromYear_def)
  have leap: "InLeapYear t = 1"
    by (simp add: InLeapYear_def y DaysInYear_def)
  show m: "MonthFromTime t = 2"
    by (simp add: MonthFromTime_def dwy leap)
  show "DateFromTime t = 20"
    by (simp add: DateFromTime_def dwy leap m)
qed

lemma civil_19801:
  assumes "Day t = 19801"
  shows "YearFromTime t = 2024" and "MonthFromTime t = 2" and "DateFromTime t = 19"
proof -
  have "YearFromDay 19801 = 2024"
    by (simp add: YearFromDay_def YearFrom.simps DayFromYear_def)
  then show y: "YearFromTime t = 2024"
    by (simp add: YearFromTime_def assms)
  have dwy: "DayWithinYear t = 78"
    by (simp add: DayWithinYear_def y assms DayFromYear_def)
  have leap: "InLeapYear t = 1"
    by (simp add: InLeapYear_def y DaysInYear_def)
  show m: "MonthFromTime t = 2"
    by (simp add: MonthFromTime_def dwy leap)
  show "DateFromTime t = 19"
    by (simp add: DateFromTime_def dwy leap m)
qed

lemma civil_19984:
  assumes "Day t = 19984"
  shows "YearFromTime t = 2024" and "MonthFromTime t = 8" and "DateFromTime t = 18"
proof -
  have "YearFromDay 19984 = 2024"
    by (simp add: YearFromDay_def YearFrom.simps DayFromYear_def)
  then show y: "YearFromTime t = 2024"
    by (simp add: YearFromTime_def assms)
  have dwy: "DayWithinYear t = 261"
    by (simp add: DayWithinYear_def y assms DayFromYear_def)
  have leap: "InLeapYear t = 1"
    by (simp add: InLeapYear_def y DaysInYear_def)
  show m: "MonthFromTime t = 8"
    by (simp add: MonthFromTime_def dwy leap)
  show "DateFromTime t = 18"
    by (simp add: DateFromTime_def dwy leap m)
qed

lemma civil_19983:
  assumes "Day t = 19983"
  shows "YearFromTime t = 2024" and "MonthFromTime t = 8" and "DateFromTime t = 17"
proof -
  have "YearFromDay 19983 = 2024"
    by (simp add: YearFromDay_def YearFrom.simps DayFromYear_def)
  then show y: "YearFromTime t = 2024"
    by (simp add: YearFromTime_def assms)
  have dwy: "DayWithinYear t = 260"
    by (simp add: DayWithinYear_def y assms DayFromYear_def)
  have leap: "InLeapYear t = 1"
    by (simp add: InLeapYear_def y DaysInYear_def)
  show m: "MonthFromTime t = 8"
    by (simp add: MonthFromTime_def dwy leap)
  show "DateFromTime t = 17"
    by (simp add: DateFromTime_def dwy leap m)
qed

lemma MakeDay_March_2024: "MakeDay 2024 2 dt = 19782 + dt"
  by (simp add: MakeDay_def MonthStart_def DaysInYear_def DayFromYear_def)

lemma js_trunc_of_int: "js_trunc (of_int a + Math_floor x) = a + \<lfloor>x\<rfloor>"
proof -
  have "of_int a + Math_floor x = (of_int (a + \<lfloor>x\<rfloor>) :: real)"
    by (simp add: Math_floor_def)
  then show ?thesis
    by (simp add: js_trunc_def del: of_int_add)
qed

text \<open>
  On a host at or east of Greenwich the local date of \<open>START_DATE\<close> is 20 March, and
  \<open>setDate\<close> moves the time value by whole days.
\<close>

lemma setDate_east:
  assumes "0 \<le> tza" and "tza < msPerDay"
  shows "setDate tza (of_int (getDate tza START_DATE) + Math_floor x) START_DATE
           = TimeClip (START_DATE + \<lfloor>x\<rfloor> * msPerDay)"
proof -
  have lt: "LocalTime tza START_DATE = 19802 * msPerDay + tza"
    by (simp add: LocalTime_def START_DATE_days)
  have d: "Day (LocalTime tza START_DATE) = 19802"
    and w: "TimeWithinDay (LocalTime tza START_DATE) = tza"
    unfolding lt using Day_split[OF assms] by simp_all
  note f = civil_19802[OF d]
  have g: "getDate tza START_DATE = 20"
    by (simp add: getDate_def f)
  have "setDate tza (of_int (getDate tza START_DATE) + Math_floor x) START_DATE
          = TimeClip (UTC tza (MakeDate (MakeDay 2024 2 (20 + \<lfloor>x\<rfloor>)) tza))"
    by (simp only: setDate_def Let_def f w g js_trunc_of_int)
  also have "UTC tza (MakeDate (MakeDay 2024 2 (20 + \<lfloor>x\<rfloor>)) tza) = START_DATE + \<lfloor>x\<rfloor> * msPerDay"
    by (simp add: MakeDay_March_2024 MakeDate_def UTC_def START_DATE_days algebra_simps)
  finally show ?thesis .
qed

text \<open>
  On a host west of Greenwich the local date of \<open>START_DATE\<close> is 19 March; \<open>setDate\<close>
  still moves the time value by whole days.
\<close>

lemma setDate_west:
  assumes "- msPerDay \<le> tza" and "tza < 0"
  shows "setDate tza (of_int (getDate tza START_DATE) + Math_floor x) START_DATE
           = TimeClip (START_DATE + \<lfloor>x\<rfloor> * msPerDay)"
proof -
  have r: "0 \<le> tza + msPerDay" "tza + msPerDay < msPerDay"
    using assms by simp_all
  have lt: "LocalTime tza START_DATE = 19801 * msPerDay + (tza + msPerDay)"
    by (simp add: LocalTime_def START_DATE_days)
  have d: "Day (LocalTime tza START_DATE) = 19801"
    unfolding lt by (rule Day_split(1)[OF r])
  have w: "TimeWithinDay (LocalTime tza START_DATE) = tza + msPerDay"
    unfolding lt by (rule Day_split(2)[OF r])
  note f = civil_19801[OF d]
  have g: "getDate tza START_DATE = 19"
    by (simp add: getDate_def f)
  have "setDate tza (of_int (getDate tza START_DATE) + Math_floor x) START_DATE
          = TimeClip (UTC tza (MakeDate (MakeDay 2024 2 (19 + \<lfloor>x\<rfloor>)) (tza + msPerDay)))"
    by (simp only: setDate_def Let_def f w g js_trunc_of_int)
  also have "UTC tza (MakeDate (MakeDay 2024 2 (19 + \<lfloor>x\<rfloor>)) (tza + msPerDay))
      = START_DATE + \<lfloor>x\<rfloor> * msPerDay"
    by (simp add: MakeDay_March_2024 MakeDate_def UTC_def START_DATE_days algebra_simps)
  finally show ?thesis .
qed

lemma display_east:
  assumes "0 \<le> tza" and "tza < msPerDay"
  shows "toLocaleDateString tza (Some (START_DATE + n * msPerDay))
           = toLocaleDateString 0 (Some (START_DATE + n * msPerDay))"
proof -
  have e: "START_DATE + n * msPerDay = (19802 + n) * msPerDay"
    by (simp add: START_DATE_days algebra_simps)
  have "Day (LocalTime tza (START_DATE + n * msPerDay)) = 19802 + n"
    unfolding LocalTime_def e using Day_split(1)[OF assms] by simp
  moreover have "Day (LocalTime 0 (START_DATE + n * msPerDay)) = 19802 + n"
    unfolding LocalTime_def e using Day_split(1)[of 0 "19802 + n"]
    by (simp add: msPerDay_def)
  ultimately have "Day (LocalTime tza (START_DATE + n * msPerDay))
      = Day (LocalTime 0 (START_DATE + n * msPerDay))"
    by simp
  from civil_cong[OF this] show ?thesis
    by (simp add: toLocaleDateString_def Let_def)
qed

lemma display_west:
  assumes "- msPerDay \<le> tza" and "tza < 0"
  shows "toLocaleDateString tza (Some (START_DATE + n * msPerDay))
           = toLocaleDateString 0 (Some (START_DATE + (n - 1) * msPerDay))"
proof -
  have r: "0 \<le> tza + msPerDay" "tza + msPerDay < msPerDay"
    using assms by simp_all
  have e: "START_DATE + n * msPerDay + tza = (19801 + n) * msPerDay + (tza + msPerDay)"
    by (simp add: START_DATE_days algebra_simps)
  have e': "START_DATE + (n - 1) * msPerDay + 0 = (19801 + n) * msPerDay + 0"
    by (simp add: START_DATE_days algebra_simps)
  have "Day (LocalTime tza (START_DATE + n * msPerDay)) = 19801 + n"
    unfolding LocalTime_def e by (rule Day_split(1)[OF r])
  moreover have "Day (LocalTime 0 (START_DATE + (n - 1) * msPerDay)) = 19801 + n"
    unfolding LocalTime_def e' using Day_split(1)[of 0 "19801 + n"]
    by (simp add: msPerDay_def)
  ultimately have "Day (LocalTime tza (START_DATE + n * msPerDay))
      = Day (LocalTime 0 (START_DATE + (n - 1) * msPerDay))"
    by simp
  from civil_cong[OF this] show ?thesis
    by (simp add: toLocaleDateString_def Let_def)
qed

lemma TimeClip_in_range:
  assumes "0 \<le> n" and "n \<le> 99980198"
  shows "TimeClip (START_DATE + n * msPerDay) = Some (START_DATE + n * msPerDay)"
  using assms by (simp add: TimeClip_def START_DATE_value msPerDay_def)

lemma display_0: "toLocaleDateString 0 (Some START_DATE) = Some (2024, 3, 20)"
proof -
  have "Day (LocalTime 0 START_DATE) = 19802"
    by (simp add: LocalTime_def START_DATE_value msPerDay_def Day_def)
  from civil_19802[OF this] show ?thesis
    by (simp add: toLocaleDateString_def Let_def)
qed

lemma display_182:
  "toLocaleDateString 0 (Some (START_DATE + 182 * msPerDay)) = Some (2024, 9, 18)"
proof -
  have "Day (LocalTime 0 (START_DATE + 182 * msPerDay)) = 19984"
    by (simp add: LocalTime_def START_DATE_value msPerDay_def Day_def)
  from civil_19984[OF this] show ?thesis
    by (simp add: toLocaleDateString_def Let_def)
qed

lemma dayOfYear_182: "dayOfYear 182 = 182"
proof -
  have "\<lfloor>182 / 365.25 :: real\<rfloor> = 0"
    by (simp add: floor_eq_iff)
  then show ?thesis
    by (simp add: dayOfYear_def DAYS_IN_YEAR_def js_rem_def js_trunc_def)
qed

text \<open>
  West of Greenwich the component shows the day before: the date that a host on UTC
  shows for \<open>\<lfloor>elapsedDays\<rfloor> - 1\<close> days after \<open>START_DATE\<close>.
\<close>

lemma currentDate_west:
  assumes "- msPerDay \<le> tza" and "tza < 0"
    and "0 \<le> elapsedDays" and "\<lfloor>elapsedDays\<rfloor> \<le> 99980198"
  shows "currentDate tza elapsedDays
           = toLocaleDateString 0 (Some (START_DATE + (\<lfloor>elapsedDays\<rfloor> - 1) * msPerDay))"
proof -
  have n: "0 \<le> \<lfloor>elapsedDays\<rfloor>"
    using assms(3) by simp
  show ?thesis
    unfolding currentDate_def Let_def setDate_west[OF assms(1,2)]
      TimeClip_in_range[OF n assms(4)] display_west[OF assms(1,2)] ..
qed

lemma currentDate_west_182: "currentDate (- 25200000) 182 = Some (2024, 9, 17)"
proof -
  have "currentDate (- 25200000) 182
      = toLocaleDateString 0 (Some (START_DATE + (\<lfloor>182::real\<rfloor> - 1) * msPerDay))"
    by (rule currentDate_west) (simp_all add: msPerDay_def)
  also have "\<dots> = toLocaleDateString 0 (Some (START_DATE + 181 * msPerDay))"
    by simp
  also have "\<dots> = Some (2024, 9, 17)"
  proof -
    have "Day (LocalTime 0 (START_DATE + 181 * msPerDay)) = 19983"
      by (simp add: LocalTime_def START_DATE_value msPerDay_def Day_def)
    from civil_19983[OF this] show ?thesis
      by (simp add: toLocaleDateString_def Let_def)
  qed
  finally show ?thesis .
qed

lemma setDate_any:
  assumes "- msPerDay \<le> tza" and "tza < msPerDay"
  shows "setDate tza (of_int (getDate tza START_DATE) + Math_floor x) START_DATE
           = TimeClip (START_DATE + \<lfloor>x\<rfloor> * msPerDay)"
proof (cases "0 \<le> tza")
  case True
  then show ?thesis
    using assms(2) by (rule setDate_east)
next
  case False
  then have "tza < 0"
    by simp
  with assms(1) show ?thesis
    by (rule setDate_west)
qed

lemma TimeClip_out_of_range:
  assumes "99980198 < n"
  shows "TimeClip (START_DATE + n * msPerDay) = None"
  using assms by (simp add: TimeClip_def START_DATE_value msPerDay_def)

text \<open>
  Claim C4, as stated: for every \<open>elapsedDays \<ge> 0\<close> the calendar date is \<open>START_DATE\<close>
  plus \<open>\<lfloor>elapsedDays\<rfloor>\<close> whole days, and for \<open>elapsedDays = 182\<close> it is 2024-09-18. After
  \<open>100000000\<close> days the date is out of the range of \<open>Date\<close> and the component shows
  \<open>Invalid Date\<close>, here on a host on UTC; and on a host seven hours west of Greenwich the
  component shows 2024-09-17 for \<open>elapsedDays = 182\<close>.
\<close>

theorem currentDate_counterexample:
  "currentDate 0 100000000 = None \<and> currentDate (- 25200000) 182 = Some (2024, 9, 17)"
proof -
  have "setDate 0 (of_int (getDate 0 START_DATE) + Math_floor 100000000) START_DATE
      = TimeClip (START_DATE + \<lfloor>100000000::real\<rfloor> * msPerDay)"
    by (rule setDate_east) (simp_all add: msPerDay_def)
  also have "\<dots> = None"
    by (simp add: TimeClip_def START_DATE_value msPerDay_def)
  finally have "currentDate 0 100000000 = None"
    by (simp add: currentDate_def toLocaleDateString_def)
  then show ?thesis
    using currentDate_west_182 by blast
qed

text \<open>
  Claim C4, amended. On a host whose local time is UTC plus a constant offset of less
  than a day either way: for every \<open>elapsedDays \<ge> 0\<close> with \<open>\<lfloor>elapsedDays\<rfloor> \<le> 99980198\<close>
  the date object holds \<open>START_DATE\<close> (2024-03-20T00:00:00Z) plus \<open>\<lfloor>elapsedDays\<rfloor>\<close> whole
  days and a date is shown; for every larger \<open>elapsedDays\<close> the date object is invalid and
  \<open>Invalid Date\<close> is shown. When the offset is not negative, the date shown is the calendar
  date of that instant. The instant \<open>182\<close> days after \<open>START_DATE\<close> has the calendar
  date 2024-09-18, which is the date shown for \<open>elapsedDays = 182\<close> when the offset is not
  negative; the orbital status for \<open>elapsedDays = 182\<close> is \<open>Autumnal Equinox\<close>.
\<close>

theorem currentDate_offset:
  assumes "- msPerDay \<le> tza" and "tza < msPerDay" and "0 \<le> elapsedDays"
  shows "(\<lfloor>elapsedDays\<rfloor> \<le> 99980198 \<longrightarrow>
            setDate tza (of_int (getDate tza START_DATE) + Math_floor elapsedDays) START_DATE
              = Some (START_DATE + \<lfloor>elapsedDays\<rfloor> * msPerDay)
            \<and> currentDate tza elapsedDays \<noteq> None)
       \<and> (99980198 < \<lfloor>elapsedDays\<rfloor> \<longrightarrow>
            setDate tza (of_int (getDate tza START_DATE) + Math_floor elapsedDays) START_DATE
              = None
            \<and> currentDate tza elapsedDays = None)
       \<and> (\<lfloor>elapsedDays\<rfloor> \<le> 99980198 \<and> 0 \<le> tza \<longrightarrow>
            currentDate tza elapsedDays
              = toLocaleDateString 0 (Some (START_DATE + \<lfloor>elapsedDays\<rfloor> * msPerDay)))
       \<and> toLocaleDateString 0 (Some START_DATE) = Some (2024, 3, 20)
       \<and> toLocaleDateString 0 (Some (START_DATE + 182 * msPerDay)) = Some (2024, 9, 18)
       \<and> (elapsedDays = 182 \<and> 0 \<le> tza \<longrightarrow> currentDate tza elapsedDays = Some (2024, 9, 18))
       \<and> getOrbitalStatus (dayOfYear 182) = ''Autumnal Equinox''"
proof -
  let ?sd = "setDate tza (of_int (getDate tza START_DATE) + Math_floor elapsedDays) START_DATE"
  have n: "0 \<le> \<lfloor>elapsedDays\<rfloor>"
    using assms(3) by simp
  have sd: "?sd = TimeClip (START_DATE + \<lfloor>elapsedDays\<rfloor> * msPerDay)"
    using assms(1,2) by (rule setDate_any)
  have cd: "currentDate tza elapsedDays = toLocaleDateString tza ?sd"
    by (simp add: currentDate_def Let_def)
  have inr: "\<lfloor>elapsedDays\<rfloor> \<le> 99980198 \<longrightarrow>
      ?sd = Some (START_DATE + \<lfloor>elapsedDays\<rfloor> * msPerDay) \<and> currentDate tza elapsedDays \<noteq> None"
  proof
    assume le: "\<lfloor>elapsedDays\<rfloor> \<le> 99980198"
    have s: "?sd = Some (START_DATE + \<lfloor>elapsedDays\<rfloor> * msPerDay)"
      unfolding sd by (rule TimeClip_in_range[OF n le])
    have "currentDate tza elapsedDays \<noteq> None"
      unfolding cd s by (simp add: toLocaleDateString_def Let_def)
    with s show "?sd = Some (START_DATE + \<lfloor>elapsedDays\<rfloor> * msPerDay)
        \<and> currentDate tza elapsedDays \<noteq> None"
      by blast
  qed
  have out: "99980198 < \<lfloor>elapsedDays\<rfloor> \<longrightarrow> ?sd = None \<and> currentDate tza elapsedDays = None"
  proof
    assume gt: "99980198 < \<lfloor>elapsedDays\<rfloor>"
    have s: "?sd = None"
      unfolding sd by (rule TimeClip_out_of_range[OF gt])
    have "currentDate tza elapsedDays = None"
      unfolding cd s by (simp add: toLocaleDateString_def)
    with s show "?sd = None \<and> currentDate tza elapsedDays = None"
      by blast
  qed
  have east: "\<lfloor>elapsedDays\<rfloor> \<le> 99980198 \<and> 0 \<le> tza \<longrightarrow>
      currentDate tza elapsedDays
        = toLocaleDateString 0 (Some (START_DATE + \<lfloor>elapsedDays\<rfloor> * msPerDay))"
  proof
    assume h: "\<lfloor>elapsedDays\<rfloor> \<le> 99980198 \<and> 0 \<le> tza"
    then have s: "?sd = Some (START_DATE + \<lfloor>elapsedDays\<rfloor> * msPerDay)"
      using inr by blast
    from h have t: "0 \<le> tza"
      by blast
    show "currentDate tza elapsedDays
        = toLocaleDateString 0 (Some (START_DATE + \<lfloor>elapsedDays\<rfloor> * msPerDay))"
      unfolding cd s by (rule display_east[OF t assms(2)])
  qed
  have s182: "elapsedDays = 182 \<and> 0 \<le> tza \<longrightarrow> currentDate tza elapsedDays = Some (2024, 9, 18)"
  proof
    assume h: "elapsedDays = 182 \<and> 0 \<le> tza"
    then have "\<lfloor>elapsedDays\<rfloor> \<le> 99980198 \<and> 0 \<le> tza"
      by simp
    with east have "currentDate tza elapsedDays
        = toLocaleDateString 0 (Some (START_DATE + \<lfloor>elapsedDays\<rfloor> * msPerDay))"
      by blast
    also have "\<dots> = toLocaleDateString 0 (Some (START_DATE + 182 * msPerDay))"
      using h by simp
    finally show "currentDate tza elapsedDays = Some (2024, 9, 18)"
      using display_182 by simp
  qed
  have o: "getOrbitalStatus (dayOfYear 182) = ''Autumnal Equinox''"
    unfolding dayOfYear_182 by (simp add: getOrbitalStatus_floor)
  show ?thesis
    using inr out east s182 o display_0 display_182 by blast
qed

theorem currentDate_offset_witness:
  "currentDate 3600000 182 = Some (2024, 9, 18)
   \<and> setDate (- 25200000) (of_int (getDate (- 25200000) START_DATE) + Math_floor 182) START_DATE
       = Some (START_DATE + 182 * msPerDay)
   \<and> currentDate (- 25200000) 99980199 = None
   \<and> getOrbitalStatus (dayOfYear 182) = ''Autumnal Equinox''"
proof -
  have h: "- msPerDay \<le> 3600000" "3600000 < msPerDay" "(0::real) \<le> 182"
    by (simp_all add: msPerDay_def)
  have "(182::real) = 182 \<and> (0::int) \<le> 3600000 \<longrightarrow> currentDate 3600000 182 = Some (2024, 9, 18)"
    and c: "getOrbitalStatus (dayOfYear 182) = ''Autumnal Equinox''"
    using currentDate_offset[OF h] by blast+
  then have a: "currentDate 3600000 182 = Some (2024, 9, 18)"
    by simp
  have k: "- msPerDay \<le> - 25200000" "- 25200000 < msPerDay"
    by (simp_all add: msPerDay_def)
  have "\<lfloor>182::real\<rfloor> \<le> 99980198 \<longrightarrow>
      setDate (- 25200000) (of_int (getDate (- 25200000) START_DATE) + Math_floor 182) START_DATE
        = Some (START_DATE + \<lfloor>182::real\<rfloor> * msPerDay)
      \<and> currentDate (- 25200000) 182 \<noteq> None"
    using currentDate_offset[OF k h(3)] by blast
  then have b: "setDate (- 25200000) (of_int (getDate (- 25200000) START_DATE) + Math_floor 182)
      START_DATE = Some (START_DATE + 182 * msPerDay)"
    by simp
  have g: "(0::real) \<le> 99980199"
    by simp
  have "99980198 < \<lfloor>99980199::real\<rfloor> \<longrightarrow>
      setDate (- 25200000) (of_int (getDate (- 25200000) START_DATE) + Math_floor 99980199)
        START_DATE = None
      \<and> currentDate (- 25200000) 99980199 = None"
    using currentDate_offset[OF k g] by blast
  then have d: "currentDate (- 25200000) 99980199 = None"
    by simp
  show ?thesis
    using a b c d by blast
qed

section \<open>The simulation clock\<close>


lemma animate_unpaused:
  "\<not> isPaused s \<Longrightarrow> speed s = Some v \<Longrightarrow>
   animate h t s = Some (s\<lparr>animationFrameId := Some h, lastTimeRef := Some t,
     simulationTime := simulationTime s
        + (t - (case lastTimeRef s of None \<Rightarrow> t | Some l \<Rightarrow> l)) / 1000 * v\<rparr>)"
  by (simp add: animate_def Let_def)

lemma animate_paused:
  "isPaused s \<Longrightarrow>
   animate h t s = Some (s\<lparr>animationFrameId := Some h, lastTimeRef := Some t\<rparr>)"
  by (simp add: animate_def Let_def)





subsection \<open>Rounding to the nearest double\<close>

lemma pow2_powr: "pow2 e = 2 powr of_int e"
  by (simp add: pow2_def powr_real_of_int inverse_eq_divide)

lemma pow2_pos: "0 < pow2 e"
  by (simp add: pow2_powr)

lemma pow2_add: "pow2 (a + b) = pow2 a * pow2 b"
  by (simp add: pow2_powr powr_add)

lemma pow2_diff: "pow2 a / pow2 b = pow2 (a - b)"
  by (simp add: pow2_powr powr_diff)

lemma pow2_numeral: "pow2 (numeral n) = 2 ^ numeral n"
  by (simp add: pow2_def)

lemma pow2_nonneg_int:
  assumes "0 \<le> k"
  shows "pow2 k = of_int (2 ^ nat k)"
  using assms by (simp add: pow2_def)

lemma ties_even_of_int: "ties_even (of_int m) = m"
  by (simp add: ties_even_def)

lemma ties_even_error: "\<bar>of_int (ties_even y) - y\<bar> \<le> 1 / 2"
  unfolding ties_even_def Let_def by (auto; linarith)

text \<open>The value of \<open>binary64\<close> at a number whose binade is known.\<close>

lemma binary64_at:
  assumes "- 1074 \<le> e" and "pow2 (e + 52) \<le> \<bar>x\<bar>" and "\<bar>x\<bar> < pow2 (e + 53)"
  shows "binary64 x = of_int (ties_even (x / pow2 e)) * pow2 e"
proof -
  have pos: "0 < \<bar>x\<bar>"
    using assms(2) pow2_pos[of "e + 52"] by linarith
  have one: "(1::real) < 2"
    by simp
  have "e + 53 = e + 52 + 1"
    by simp
  then have "2 powr of_int (e + 52) \<le> \<bar>x\<bar> \<and> \<bar>x\<bar> < 2 powr of_int (e + 52 + 1)"
    using assms(2,3) by (simp only: pow2_powr)
  then have "\<lfloor>log 2 \<bar>x\<bar>\<rfloor> = e + 52"
    by (rule iffD2[OF floor_log_eq_powr_iff[OF pos one]])
  then have "max (\<lfloor>log 2 \<bar>x\<bar>\<rfloor> - 52) (- 1074) = e"
    using assms(1) by simp
  then show ?thesis
    using pos by (simp add: binary64_def)
qed

text \<open>A number with a significand of at most 53 bits is a double and is not changed.\<close>

lemma binary64_fixed:
  assumes "- 1074 \<le> e" and "x = of_int m * pow2 e" and "\<bar>m\<bar> < 2 ^ 53"
  shows "binary64 x = x"
proof (cases "x = 0")
  case True
  then show ?thesis
    by (simp add: binary64_def)
next
  case False
  define E where "E = max (\<lfloor>log 2 \<bar>x\<bar>\<rfloor> - 52) (- 1074)"
  have pos: "0 < \<bar>x\<bar>"
    using False by simp
  have "\<bar>x\<bar> = of_int \<bar>m\<bar> * pow2 e"
    using pow2_pos[of e] by (simp add: assms(2) abs_mult)
  also have "\<dots> < 2 ^ 53 * pow2 e"
    using assms(3) pow2_pos[of e] by (simp add: of_int_less_numeral_power_cancel_iff)
  also have "\<dots> = pow2 (e + 53)"
    by (simp add: pow2_add pow2_numeral)
  finally have "\<bar>x\<bar> < 2 powr of_int (e + 53)"
    by (simp only: pow2_powr)
  then have "log 2 \<bar>x\<bar> < of_int (e + 53)"
    using pos by (simp add: log_less_iff)
  then have "\<lfloor>log 2 \<bar>x\<bar>\<rfloor> < e + 53"
    by (simp add: floor_less_iff)
  then have le: "E \<le> e"
    using assms(1) by (simp add: E_def)
  have "x / pow2 E = of_int m * pow2 (e - E)"
    by (simp add: assms(2) pow2_diff[symmetric])
  also have "\<dots> = of_int (m * 2 ^ nat (e - E))"
    using le by (simp add: pow2_nonneg_int)
  finally have "ties_even (x / pow2 E) = m * 2 ^ nat (e - E)"
    by (simp only: ties_even_of_int)
  then have "of_int (ties_even (x / pow2 E)) * pow2 E = of_int m * pow2 (e - E) * pow2 E"
    using le by (simp add: pow2_nonneg_int)
  also have "\<dots> = x"
    by (simp add: assms(2) pow2_add[symmetric] mult.assoc)
  finally show ?thesis
    using False by (simp add: binary64_def E_def Let_def)
qed

lemma binary64_of_int:
  assumes "\<bar>m\<bar> < 2 ^ 53"
  shows "binary64 (of_int m) = of_int m"
  using binary64_fixed[of 0 "of_int m" m] assms by (simp add: pow2_def)

lemma binary64_0: "binary64 0 = 0"
  by (simp add: binary64_def)

lemma binary64_numeral:
  assumes "(numeral n :: int) < 2 ^ 53"
  shows "binary64 (numeral n) = numeral n"
  using binary64_of_int[of "numeral n"] assms by simp

text \<open>One rounding changes \<open>x\<close> by at most \<open>\<bar>x\<bar> / 2\<^sup>5\<^sup>3\<close>, or by \<open>2\<^sup>-\<^sup>1\<^sup>0\<^sup>7\<^sup>5\<close> near zero.\<close>

lemma binary64_error: "\<bar>binary64 x - x\<bar> \<le> \<bar>x\<bar> / 2 ^ 53 + pow2 (- 1075)"
proof (cases "x = 0")
  case True
  then show ?thesis
    using pow2_pos[of "- 1075"] by (simp add: binary64_def)
next
  case False
  define L where "L = \<lfloor>log 2 \<bar>x\<bar>\<rfloor>"
  define E where "E = max (L - 52) (- 1074)"
  have pos: "0 < \<bar>x\<bar>"
    using False by simp
  have b: "binary64 x = of_int (ties_even (x / pow2 E)) * pow2 E"
    using False by (simp add: binary64_def E_def L_def Let_def)
  have "binary64 x - x = (of_int (ties_even (x / pow2 E)) - x / pow2 E) * pow2 E"
    using pow2_pos[of E] by (simp add: b algebra_simps)
  then have "\<bar>binary64 x - x\<bar> = \<bar>of_int (ties_even (x / pow2 E)) - x / pow2 E\<bar> * pow2 E"
    using pow2_pos[of E] by (simp add: abs_mult)
  also have "\<dots> \<le> 1 / 2 * pow2 E"
    using ties_even_error[of "x / pow2 E"] pow2_pos[of E]
    by (intro mult_right_mono) simp_all
  finally have h: "\<bar>binary64 x - x\<bar> \<le> pow2 E / 2"
    by simp
  have "of_int L \<le> log 2 \<bar>x\<bar>"
    by (simp add: L_def)
  then have "2 powr of_int L \<le> \<bar>x\<bar>"
    using pos by (simp add: le_log_iff)
  then have l: "pow2 L \<le> \<bar>x\<bar>"
    by (simp only: pow2_powr)
  have "pow2 E / 2 \<le> \<bar>x\<bar> / 2 ^ 53 + pow2 (- 1075)"
  proof (cases "- 1074 \<le> L - 52")
    case True
    then have "E = L - 52"
      by (simp add: E_def)
    then have "pow2 E = pow2 L / 2 ^ 52"
      by (simp add: pow2_diff[symmetric] pow2_numeral)
    then have "pow2 E / 2 \<le> \<bar>x\<bar> / 2 ^ 53"
      using l by simp
    then show ?thesis
      using pow2_pos[of "- 1075"] by linarith
  next
    case False
    then have "E = - 1074"
      by (simp add: E_def)
    then have "pow2 E / 2 = pow2 (- 1075)"
      by (simp add: pow2_def)
    then show ?thesis
      by simp
  qed
  with h show ?thesis
    by linarith
qed

lemma binary64_tenth: "binary64 (1 / 10) = 3602879701896397 / 2 ^ 55"
  using binary64_at[of "- 56" "1 / 10"]
  by (simp add: ties_even_def pow2_def)

lemma binary64_7_tenths:
  "binary64 (3602879701896397 / 2 ^ 55 * 7) = 6305039478318695 / 2 ^ 53"
  using binary64_at[of "- 53" "3602879701896397 / 2 ^ 55 * 7"]
  by (simp add: ties_even_def pow2_def)

lemma binary64_7_tenths_fixed:
  "binary64 (6305039478318695 / 2 ^ 53) = 6305039478318695 / 2 ^ 53"
  using binary64_fixed[of "- 53" "6305039478318695 / 2 ^ 53" 6305039478318695]
  by (simp add: pow2_def)

lemma binary64_14_7: "binary64 (6305039478318695 / 2 ^ 53 + 14) = 4137682157646643 / 2 ^ 48"
  using binary64_at[of "- 49" "6305039478318695 / 2 ^ 53 + 14"]
  by (simp add: ties_even_def pow2_def)

subsection \<open>The advance of one frame\<close>

lemma animate_rounded_exact: "animate_rounded (\<lambda>x. x) h t s = animate h t s"
  by (simp add: animate_rounded_def animate_def)

lemma animate_rounded_unpaused:
  "\<not> isPaused s \<Longrightarrow> speed s = Some v \<Longrightarrow> lastTimeRef s = Some l \<Longrightarrow>
   animate_rounded rnd h t s = Some (s\<lparr>animationFrameId := Some h, lastTimeRef := Some t,
     simulationTime := rnd (simulationTime s + rnd (rnd (rnd (t - l) / 1000) * rnd v))\<rparr>)"
  by (simp add: animate_rounded_def Let_def)

lemma frame_0:
  "animate_rounded binary64 2 0 initial
     = Some (initial\<lparr>animationFrameId := Some 2, lastTimeRef := Some 0\<rparr>)"
  by (simp add: animate_rounded_def initial_def speed_def speedLevels_def Let_def
      binary64_0 binary64_numeral)

lemma frame_100:
  "animate_rounded binary64 3 100 (initial\<lparr>animationFrameId := Some 2, lastTimeRef := Some 0\<rparr>)
     = Some (initial\<lparr>animationFrameId := Some 3, lastTimeRef := Some 100,
          simulationTime := 6305039478318695 / 2 ^ 53\<rparr>)"
proof -
  have a: "binary64 (100 - 0) = 100"
    by (simp add: binary64_numeral)
  have b: "binary64 (100 / 1000) = 3602879701896397 / 2 ^ 55"
    using binary64_tenth by simp
  have c: "binary64 7 = 7"
    by (simp add: binary64_numeral)
  have d: "binary64 (0 + 6305039478318695 / 2 ^ 53) = 6305039478318695 / 2 ^ 53"
    using binary64_7_tenths_fixed by simp
  have "binary64 (0 + binary64 (binary64 (binary64 (100 - 0) / 1000) * binary64 7))
      = 6305039478318695 / 2 ^ 53"
    by (simp only: a b c binary64_7_tenths d)
  then show ?thesis
    by (simp add: animate_rounded_def initial_def speed_def speedLevels_def Let_def)
qed

lemma frame_2100:
  "animate_rounded binary64 4 2100
     (initial\<lparr>animationFrameId := Some 3, lastTimeRef := Some 100,
        simulationTime := 6305039478318695 / 2 ^ 53\<rparr>)
     = Some (initial\<lparr>animationFrameId := Some 4, lastTimeRef := Some 2100,
          simulationTime := 4137682157646643 / 2 ^ 48\<rparr>)"
proof -
  have a: "binary64 (2100 - 100) = 2000"
    by (simp add: binary64_numeral)
  have b: "binary64 (2000 / 1000) = 2"
    by (simp add: binary64_numeral)
  have c: "binary64 7 = 7"
    by (simp add: binary64_numeral)
  have d: "binary64 (2 * 7) = 14"
    by (simp add: binary64_numeral)
  have "binary64 (6305039478318695 / 2 ^ 53
          + binary64 (binary64 (binary64 (2100 - 100) / 1000) * binary64 7))
      = 4137682157646643 / 2 ^ 48"
    by (simp only: a b c d binary64_14_7)
  then show ?thesis
    by (simp add: animate_rounded_def initial_def speed_def speedLevels_def Let_def)
qed

text \<open>
  Claim C7, as stated: a frame that is not the first one and is not paused, \<open>t\<close> seconds
  after the recorded timestamp and at speed \<open>m\<close>, advances the simulation time by exactly
  \<open>t * m\<close>, and at speed \<open>7\<close> after \<open>2\<close> seconds by exactly \<open>14\<close>. In double precision,
  from the initial state (speed \<open>7\<close>) the frames at \<open>0\<close> and \<open>100\<close> ms advance the
  simulation time by \<open>6305039478318695 / 2\<^sup>5\<^sup>3\<close>, which is not \<open>0.1 * 7\<close>, and the next
  frame at \<open>2100\<close> ms, \<open>2\<close> seconds later, advances it by less than \<open>14\<close>.
\<close>

theorem animate_advance_counterexample:
  "map_option simulationTime (run_rounded binary64 initial [(2, 0), (3, 100)])
     = Some (6305039478318695 / 2 ^ 53)
   \<and> (6305039478318695 / 2 ^ 53 - 0 :: real) \<noteq> (100 - 0) / 1000 * 7
   \<and> map_option simulationTime (run_rounded binary64 initial [(2, 0), (3, 100), (4, 2100)])
     = Some (4137682157646643 / 2 ^ 48)
   \<and> (4137682157646643 / 2 ^ 48 - 6305039478318695 / 2 ^ 53 :: real) \<noteq> 14"
proof -
  have r2: "run_rounded binary64 initial [(2, 0), (3, 100)]
     = Some (initial\<lparr>animationFrameId := Some 3, lastTimeRef := Some 100,
          simulationTime := 6305039478318695 / 2 ^ 53\<rparr>)"
    by (simp only: run_rounded.simps frame_0 frame_100 option.case)
  have r3: "run_rounded binary64 initial [(2, 0), (3, 100), (4, 2100)]
     = Some (initial\<lparr>animationFrameId := Some 4, lastTimeRef := Some 2100,
          simulationTime := 4137682157646643 / 2 ^ 48\<rparr>)"
    by (simp only: run_rounded.simps frame_0 frame_100 frame_2100 option.case)
  have a: "map_option simulationTime (run_rounded binary64 initial [(2, 0), (3, 100)])
     = Some (6305039478318695 / 2 ^ 53)"
    unfolding r2 by simp
  have b: "map_option simulationTime
       (run_rounded binary64 initial [(2, 0), (3, 100), (4, 2100)])
     = Some (4137682157646643 / 2 ^ 48)"
    unfolding r3 by simp
  have c: "(6305039478318695 / 2 ^ 53 - 0 :: real) \<noteq> (100 - 0) / 1000 * 7"
    by simp
  have d: "(4137682157646643 / 2 ^ 48 - 6305039478318695 / 2 ^ 53 :: real) \<noteq> 14"
    by simp
  show ?thesis
    using a b c d by blast
qed

text \<open>
  Claim C7, amended. A frame that is not the first one and is not paused, at timestamp
  \<open>time\<close> after the recorded \<open>lastTime\<close> and at speed \<open>m\<close>, sets the simulation time to
  \<open>fl (simulationTime + fl (fl (fl (time - lastTime) / 1000) * fl m))\<close>, where \<open>fl\<close>
  rounds to the nearest double and changes a number \<open>x\<close> by at most
  \<open>\<bar>x\<bar> / 2\<^sup>5\<^sup>3 + 2\<^sup>-\<^sup>1\<^sup>0\<^sup>7\<^sup>5\<close>. With \<open>t = (time - lastTime) / 1000\<close>, the advance is exactly
  \<open>t * m\<close> when none of these operations rounds, as it is in exact arithmetic. At speed
  \<open>7\<close> and \<open>2000\<close> ms after the recorded timestamp, from a simulation time that is a whole
  number \<open>k\<close> with \<open>\<bar>k\<bar> + 14 < 2\<^sup>5\<^sup>3\<close> (such as \<open>0\<close>), the advance is exactly \<open>14\<close>.
\<close>

theorem animate_advance:
  assumes "lastTimeRef s = Some lastTime" and "\<not> isPaused s" and "speed s = Some m"
    and "t = (time - lastTime) / 1000"
  shows "\<exists>s'. animate_rounded binary64 h time s = Some s'
      \<and> simulationTime s'
          = binary64 (simulationTime s
              + binary64 (binary64 (binary64 (time - lastTime) / 1000) * binary64 m))
      \<and> (\<forall>x. \<bar>binary64 x - x\<bar> \<le> \<bar>x\<bar> / 2 ^ 53 + pow2 (- 1075))
      \<and> (binary64 (time - lastTime) = time - lastTime \<and> binary64 t = t \<and> binary64 m = m
           \<and> binary64 (t * m) = t * m
           \<and> binary64 (simulationTime s + t * m) = simulationTime s + t * m
          \<longrightarrow> simulationTime s' - simulationTime s = t * m)
      \<and> (m = 7 \<and> time - lastTime = 2000
           \<and> (\<exists>k. simulationTime s = of_int k \<and> \<bar>k\<bar> + 14 < 2 ^ 53)
          \<longrightarrow> simulationTime s' - simulationTime s = 14)
      \<and> (\<exists>s''. animate_rounded (\<lambda>x. x) h time s = Some s''
           \<and> animate h time s = Some s''
           \<and> simulationTime s'' - simulationTime s = t * m)"
proof -
  define new where "new = binary64 (simulationTime s
      + binary64 (binary64 (binary64 (time - lastTime) / 1000) * binary64 m))"
  define s' where "s' = s\<lparr>animationFrameId := Some h, lastTimeRef := Some time,
      simulationTime := new\<rparr>"
  have step: "animate_rounded binary64 h time s = Some s'"
    unfolding s'_def new_def using assms(1-3) by (simp add: animate_rounded_unpaused)
  have val: "simulationTime s' = new"
    by (simp add: s'_def)
  have exact: "simulationTime s' - simulationTime s = t * m"
    if "binary64 (time - lastTime) = time - lastTime \<and> binary64 t = t \<and> binary64 m = m
        \<and> binary64 (t * m) = t * m
        \<and> binary64 (simulationTime s + t * m) = simulationTime s + t * m"
  proof -
    have "binary64 (binary64 (time - lastTime) / 1000) = t"
      using that assms(4) by simp
    then have "new = simulationTime s + t * m"
      using that by (simp add: new_def)
    then show ?thesis
      by (simp add: val)
  qed
  have two: "simulationTime s' - simulationTime s = 14"
    if "m = 7 \<and> time - lastTime = 2000
        \<and> (\<exists>k. simulationTime s = of_int k \<and> \<bar>k\<bar> + 14 < 2 ^ 53)"
  proof -
    from that obtain k :: int where k: "simulationTime s = of_int k" "\<bar>k\<bar> + 14 < 2 ^ 53"
      by blast
    have t2: "t = 2"
      using that assms(4) by simp
    have "\<bar>k + 14\<bar> < 2 ^ 53"
      using k(2) by linarith
    then have "binary64 (of_int (k + 14)) = of_int (k + 14)"
      by (rule binary64_of_int)
    then have sum: "binary64 (simulationTime s + t * m) = simulationTime s + t * m"
      using that t2 k(1) by simp
    have "binary64 (time - lastTime) = time - lastTime \<and> binary64 t = t \<and> binary64 m = m
        \<and> binary64 (t * m) = t * m"
      using that t2 by (simp add: binary64_numeral)
    with sum have "simulationTime s' - simulationTime s = t * m"
      using exact by blast
    then show ?thesis
      using that t2 by simp
  qed
  have ideal: "\<exists>s''. animate_rounded (\<lambda>x. x) h time s = Some s''
      \<and> animate h time s = Some s'' \<and> simulationTime s'' - simulationTime s = t * m"
    using assms by (simp add: animate_rounded_exact animate_unpaused)
  show ?thesis
    using step val exact two ideal binary64_error unfolding new_def by blast
qed

theorem animate_advance_witness:
  "\<exists>s'. animate_rounded binary64 5 2000 (initial\<lparr>lastTimeRef := Some 0\<rparr>) = Some s'
      \<and> simulationTime s' - simulationTime (initial\<lparr>lastTimeRef := Some 0\<rparr>) = 14"
proof -
  let ?s = "initial\<lparr>lastTimeRef := Some 0\<rparr>"
  have 1: "lastTimeRef ?s = Some 0"
    by simp
  have 2: "\<not> isPaused ?s"
    by (simp add: initial_def)
  have 3: "speed ?s = Some 7"
    by (simp add: speed_def initial_def speedLevels_def)
  have 4: "(2::real) = (2000 - 0) / 1000"
    by simp
  have 5: "(7::real) = 7 \<and> (2000::real) - 0 = 2000
      \<and> (\<exists>k. simulationTime ?s = of_int k \<and> \<bar>k\<bar> + 14 < 2 ^ 53)"
    by (simp add: initial_def)
  show ?thesis
    using animate_advance[OF 1 2 3 4, of 5] 5 by blast
qed

text \<open>
  Claim C8. A frame while paused leaves the simulation time unchanged, whatever its
  timestamp, and records the timestamp; the speed level, the pause flag and the rotation
  flag are unchanged. The only other cell written is the handle of the next frame.
\<close>

theorem animate_while_paused:
  assumes "isPaused s"
  shows "\<exists>s'. animate h time s = Some s'
      \<and> simulationTime s' = simulationTime s
      \<and> lastTimeRef s' = Some time
      \<and> speedLevel s' = speedLevel s \<and> isPaused s' = isPaused s
      \<and> isRotationEnabled s' = isRotationEnabled s
      \<and> s' = s\<lparr>animationFrameId := Some h, lastTimeRef := Some time\<rparr>"
  using assms by (simp add: animate_paused)

theorem animate_while_paused_witness:
  "animate 9 123456 (initial\<lparr>isPaused := True, simulationTime := 42, lastTimeRef := Some 5\<rparr>)
     = Some (initial\<lparr>isPaused := True, simulationTime := 42,
          animationFrameId := Some 9, lastTimeRef := Some 123456\<rparr>)"
proof -
  let ?s = "initial\<lparr>isPaused := True, simulationTime := 42, lastTimeRef := Some 5\<rparr>"
  have p: "isPaused ?s"
    by simp
  show ?thesis
    using animate_while_paused[OF p, of 9 123456] by (auto simp: initial_def)
qed

end
